(*
  Occlusion-map projection (acl21/t3vip, src/t3vip/occ_map/OccMap_cuda_kernel.cu):
  a shallow embedding of the three CUDA kernels and of their two host launchers,
  over a bit-level model of IEEE-754 binary32.
*)

theory Spec2Isabelle
  imports Main "HOL-Library.Word" "HOL-Library.Multiset"
begin

unbundle bit_operations_syntax

section \<open>IEEE-754 binary32 values as bit patterns\<close>

text \<open>
  A \<^verbatim>\<open>float\<close> is its 32-bit pattern: sign (bit 31), biased exponent (bits 30..23)
  and fraction (bits 22..0).  Every finite binary32 value is an integer multiple of
  \<open>2^-149\<close>; \<open>mag w\<close> is the magnitude of \<open>w\<close> counted in these units and \<open>units w\<close>
  the signed count, so the real value of a finite \<open>w\<close> is \<open>units w / 2^149\<close> and the
  integer \<open>n\<close> is the count \<open>n * one_units\<close>.  For an infinity the same formula yields
  \<open>2^277\<close>, above the magnitude of every finite value, which is the place IEEE
  comparison gives it.
\<close>

type_synonym f32 = "32 word"

definition f_sign :: "f32 \<Rightarrow> bool" where
  "f_sign w = (2 ^ 31 \<le> unat w)"

definition f_exp :: "f32 \<Rightarrow> nat" where
  "f_exp w = (unat w div 2 ^ 23) mod 2 ^ 8"

definition f_frac :: "f32 \<Rightarrow> nat" where
  "f_frac w = unat w mod 2 ^ 23"

definition is_nan :: "f32 \<Rightarrow> bool" where
  "is_nan w = (f_exp w = 255 \<and> f_frac w \<noteq> 0)"

definition is_inf :: "f32 \<Rightarrow> bool" where
  "is_inf w = (f_exp w = 255 \<and> f_frac w = 0)"

definition is_finite :: "f32 \<Rightarrow> bool" where
  "is_finite w = (f_exp w < 255)"

definition one_units :: nat where
  "one_units = 2 ^ 149"

definition mag :: "f32 \<Rightarrow> nat" where
  "mag w = (if f_exp w = 0 then f_frac w else (2 ^ 23 + f_frac w) * 2 ^ (f_exp w - 1))"

definition units :: "f32 \<Rightarrow> int" where
  "units w = (if f_sign w then - int (mag w) else int (mag w))"

text \<open>The comparisons of C on floats: false as soon as an operand is a NaN; the two
  zeros are equal.\<close>

definition flt :: "f32 \<Rightarrow> f32 \<Rightarrow> bool" where
  "flt a b = (\<not> is_nan a \<and> \<not> is_nan b \<and> units a < units b)"

definition fle :: "f32 \<Rightarrow> f32 \<Rightarrow> bool" where
  "fle a b = (\<not> is_nan a \<and> \<not> is_nan b \<and> units a \<le> units b)"

definition fge :: "f32 \<Rightarrow> f32 \<Rightarrow> bool" where
  "fge a b = fle b a"

definition feq :: "f32 \<Rightarrow> f32 \<Rightarrow> bool" where
  "feq a b = (\<not> is_nan a \<and> \<not> is_nan b \<and> units a = units b)"

text \<open>Rounding to nearest, ties to even.  \<open>rne p d\<close> is the pattern (sign bit clear) of
  the binary32 value nearest to \<open>p / d\<close> units: \<open>k\<close> is the number of low bits that
  do not fit into the 24-bit significand, \<open>n\<close> the rounded significand; a carry out of
  the significand moves into the exponent field by the addition, and everything at or
  above the pattern of infinity is infinity.\<close>

fun blen :: "nat \<Rightarrow> nat" where
  "blen n = (if n = 0 then 0 else Suc (blen (n div 2)))"

declare blen.simps [simp del]

definition rhe_div :: "nat \<Rightarrow> nat \<Rightarrow> nat" where
  "rhe_div a b = (let q = a div b; r = a mod b in
     if 2 * r < b then q else if b < 2 * r then q + 1 else if even q then q else q + 1)"

definition rne :: "nat \<Rightarrow> nat \<Rightarrow> nat" where
  "rne p d = (let k = blen (p div d) - 24;
                  n = rhe_div p (d * 2 ^ k)
              in min (k * 2 ^ 23 + n) 0x7F800000)"

definition pack :: "bool \<Rightarrow> nat \<Rightarrow> f32" where
  "pack neg m = of_nat ((if neg then 2 ^ 31 else 0) + m)"

definition qnan :: f32 where
  "qnan = 0x7FFFFFFF"

definition HUGE_VALF :: f32 where
  "HUGE_VALF = 0x7F800000"

definition fdiv :: "f32 \<Rightarrow> f32 \<Rightarrow> f32" where
  "fdiv a b = (let s = (f_sign a \<noteq> f_sign b) in
     if is_nan a \<or> is_nan b then qnan
     else if is_inf a then (if is_inf b then qnan else pack s 0x7F800000)
     else if is_inf b then pack s 0
     else if mag b = 0 then (if mag a = 0 then qnan else pack s 0x7F800000)
     else pack s (rne (mag a * one_units) (mag b)))"

definition fmul :: "f32 \<Rightarrow> f32 \<Rightarrow> f32" where
  "fmul a b = (let s = (f_sign a \<noteq> f_sign b) in
     if is_nan a \<or> is_nan b then qnan
     else if is_inf a \<or> is_inf b then (if mag a = 0 \<or> mag b = 0 then qnan else pack s 0x7F800000)
     else pack s (rne (mag a * mag b) one_units))"

definition fadd :: "f32 \<Rightarrow> f32 \<Rightarrow> f32" where
  "fadd a b = (
     if is_nan a \<or> is_nan b then qnan
     else if is_inf a then (if is_inf b \<and> f_sign a \<noteq> f_sign b then qnan else a)
     else if is_inf b then b
     else let s = units a + units b in
       if s = 0 then pack (f_sign a \<and> f_sign b) 0
       else pack (s < 0) (rne (nat \<bar>s\<bar>) 1))"

definition fneg :: "f32 \<Rightarrow> f32" where
  "fneg w = w XOR 0x80000000"

text \<open>Integer to float (round to nearest even), as the implicit conversions of the
  kernels do, and float to \<^verbatim>\<open>long\<close> by truncation.  C leaves the conversion of a NaN
  or of an out-of-range value undefined; the device instruction gives 0 for a NaN and
  saturates, which is what \<open>f2l\<close> does.\<close>

definition l2f :: "int \<Rightarrow> f32" where
  "l2f n = pack (n < 0) (rne (nat \<bar>n\<bar> * one_units) 1)"

definition f2l :: "f32 \<Rightarrow> int" where
  "f2l w = (if is_nan w then 0
            else let t = (if f_sign w then - int (mag w div one_units) else int (mag w div one_units))
                 in max (- (2 ^ 63)) (min (2 ^ 63 - 1) t))"

text \<open>\<^verbatim>\<open>round\<close>: to the nearest integer, halfway cases away from zero, the sign kept.
  A finite value of magnitude \<open>2^23\<close> or more is an integer already.\<close>

definition fround :: "f32 \<Rightarrow> f32" where
  "fround w = (if \<not> is_finite w \<or> 2 ^ 23 * one_units \<le> mag w then w
     else pack (f_sign w) (rne (((2 * mag w + one_units) div (2 * one_units)) * one_units) 1))"

section \<open>The kernels\<close>

text \<open>The sizes and strides the launchers read from the tensors: the input and the
  output share the strides \<open>is0 .. is3\<close>, the index map has \<open>iMs0 .. iMs3\<close>.  The
  C \<^verbatim>\<open>int\<close>s are unbounded integers here.\<close>

record geom =
  batchSize :: nat
  nrows :: nat
  ncols :: nat
  is0 :: int
  is1 :: int
  is2 :: int
  is3 :: int
  iMs0 :: int
  iMs1 :: int
  iMs2 :: int
  iMs3 :: int

record camera =
  fy :: f32
  fx :: f32
  cy :: f32
  cx :: f32

text \<open>A buffer maps an element offset from its data pointer to the float stored there.\<close>

type_synonym buffer = "int \<Rightarrow> f32"

definition getCoordinates_1 :: "nat \<Rightarrow> nat \<Rightarrow> nat \<Rightarrow> nat \<times> nat \<times> nat" where
  "getCoordinates_1 tid nr nc =
     (let col = tid mod nc;
          id1 = tid div nc;
          row = id1 mod nr;
          id2 = id1 div nr
      in (id2, row, col))"

definition npoints :: "geom \<Rightarrow> nat" where
  "npoints g = batchSize g * nrows g * ncols g"

text \<open>\<^verbatim>\<open>ceil(npoints * (1.0/256))\<close>: the product with the power of two is exact in
  double precision, so this is the integer ceiling.\<close>

definition numBlocks :: "geom \<Rightarrow> nat" where
  "numBlocks g = (npoints g + 255) div 256"

text \<open>\<^verbatim>\<open>blockIdx.x * blockDim.x + threadIdx.x\<close> for every thread of a launch of \<open>nb\<close>
  blocks of 256 threads.\<close>

definition launch_ids :: "nat \<Rightarrow> nat list" where
  "launch_ids nb = concat (map (\<lambda>blk. map (\<lambda>t. blk * 256 + t) [0..<256]) [0..<nb])"

text \<open>\<^verbatim>\<open>atomicMin((unsigned int*) p, v)\<close>: the order of \<open>32 word\<close> is the unsigned one, and
  \<^verbatim>\<open>__float_as_int\<close> leaves the bit pattern as it is.\<close>

definition atomicMin :: "buffer \<Rightarrow> int \<Rightarrow> f32 \<Rightarrow> buffer" where
  "atomicMin m a v = m(a := min (m a) v)"

definition projectPointsAndDepthTest :: "geom \<Rightarrow> camera \<Rightarrow> buffer \<Rightarrow> nat \<Rightarrow> buffer \<Rightarrow> buffer" where
  "projectPointsAndDepthTest g cam input_data tid output_data =
     (if npoints g \<le> tid then output_data
      else
        let (b, r, c) = getCoordinates_1 tid (nrows g) (ncols g);
            vali = int b * is0 g + int r * is2 g + int c * is3 g;
            x = input_data (0 * is1 g + vali);
            y = input_data (1 * is1 g + vali);
            z = input_data (2 * is1 g + vali)
        in if fle z (l2f 0) then output_data
           else
             let xpix = fadd (fmul (fdiv x z) (fx cam)) (cx cam);
                 ypix = fadd (fmul (fdiv y z) (fy cam)) (cy cam);
                 xpixr = fround xpix;
                 ypixr = fround ypix
             in if fge xpixr (l2f 0) \<and> flt xpixr (l2f (int (ncols g))) \<and>
                   fge ypixr (l2f 0) \<and> flt ypixr (l2f (int (nrows g)))
                then
                  let valo = f2l (fadd (fadd (l2f (int b * is0 g)) (fmul ypixr (l2f (is2 g))))
                                       (fmul xpixr (l2f (is3 g))))
                  in atomicMin output_data (2 * is1 g + valo) z
                else output_data)"

text \<open>The two buffers the second kernel of the forward pass writes.\<close>

record fwd_mem =
  output_data :: buffer
  indexMap_data :: buffer

definition refineOutput :: "geom \<Rightarrow> camera \<Rightarrow> buffer \<Rightarrow> nat \<Rightarrow> fwd_mem \<Rightarrow> fwd_mem" where
  "refineOutput g cam input_data tid st =
     (if npoints g \<le> tid then st
      else
        let (b, r, c) = getCoordinates_1 tid (nrows g) (ncols g);
            vali = int b * is0 g + int r * is2 g + int c * is3 g;
            st1 = (if feq (output_data st (2 * is1 g + vali)) HUGE_VALF
                   then st\<lparr>output_data := (output_data st)(2 * is1 g + vali := l2f 0)\<rparr>
                   else st);
            x = input_data (0 * is1 g + vali);
            y = input_data (1 * is1 g + vali);
            z = input_data (2 * is1 g + vali)
        in if fle z (l2f 0) then st1
           else
             let xpix = fadd (fmul (fdiv x z) (fx cam)) (cx cam);
                 ypix = fadd (fmul (fdiv y z) (fy cam)) (cy cam);
                 xpixr = fround xpix;
                 ypixr = fround ypix
             in if fge xpixr (l2f 0) \<and> flt xpixr (l2f (int (ncols g))) \<and>
                   fge ypixr (l2f 0) \<and> flt ypixr (l2f (int (nrows g)))
                then
                  let valo = f2l (fadd (fadd (l2f (int b * is0 g)) (fmul ypixr (l2f (is2 g))))
                                       (fmul xpixr (l2f (is3 g))));
                      zo = output_data st1 (2 * is1 g + valo)
                  in if feq zo z
                     then
                       let valim = f2l (fadd (fadd (l2f (int b * iMs0 g)) (fmul ypixr (l2f (iMs2 g))))
                                             (fmul xpixr (l2f (iMs3 g))))
                       in st1\<lparr>output_data := (output_data st1)
                                 (0 * is1 g + valo := xpix, 1 * is1 g + valo := ypix),
                               indexMap_data := (indexMap_data st1)(valim := l2f vali)\<rparr>
                     else st1
                else st1)"

text \<open>\<^verbatim>\<open>pow\<close> is the device math library's; its result for \<^verbatim>\<open>pow(z,2)\<close> is the
  parameter \<open>pow2\<close> of the kernel.\<close>

definition projectionGradient ::
  "geom \<Rightarrow> camera \<Rightarrow> (f32 \<Rightarrow> f32) \<Rightarrow> buffer \<Rightarrow> buffer \<Rightarrow> buffer \<Rightarrow> nat \<Rightarrow> buffer \<Rightarrow> buffer" where
  "projectionGradient g cam pow2 input_data gradOutput_data indexMap tid gradInput_data =
     (if npoints g \<le> tid then gradInput_data
      else
        let (b, r, c) = getCoordinates_1 tid (nrows g) (ncols g);
            valim = int b * iMs0 g + int r * iMs2 g + int c * iMs3 g;
            vali = f2l (indexMap valim)
        in if vali = - 1 then gradInput_data
           else
             let x = input_data (0 * is1 g + vali);
                 y = input_data (1 * is1 g + vali);
                 z = input_data (2 * is1 g + vali);
                 valgo = int b * is0 g + int r * is2 g + int c * is3 g;
                 gx = gradOutput_data (0 * is1 g + valgo);
                 gy = gradOutput_data (1 * is1 g + valgo);
                 gz = gradOutput_data (2 * is1 g + valgo)
             in gradInput_data
                  (0 * is1 g + vali := fmul (fdiv (fx cam) z) gx,
                   1 * is1 g + vali := fmul (fdiv (fy cam) z) gy,
                   2 * is1 g + vali :=
                     fadd (fadd (fmul (fmul (fdiv (fneg x) (pow2 z)) (fx cam)) gx)
                                (fmul (fmul (fdiv (fneg y) (pow2 z)) (fy cam)) gy)) gz))"

section \<open>The launchers\<close>

text \<open>A launch runs the kernel once for every thread id of \<open>launch_ids\<close>, in an order
  the hardware chooses: a schedule is a list of the launch's ids without repetition.
  Pass 1 reaches memory through one atomic operation per thread and the threads of
  the other kernels are taken one after the other, so a launch is the fold of the
  kernel over the schedule.\<close>

definition schedule :: "geom \<Rightarrow> nat list \<Rightarrow> bool" where
  "schedule g ids = (distinct ids \<and> set ids = set (launch_ids (numBlocks g)))"

definition pass1 :: "geom \<Rightarrow> camera \<Rightarrow> buffer \<Rightarrow> nat list \<Rightarrow> buffer \<Rightarrow> buffer" where
  "pass1 g cam input_data ids output = fold (projectPointsAndDepthTest g cam input_data) ids output"

definition pass2 :: "geom \<Rightarrow> camera \<Rightarrow> buffer \<Rightarrow> nat list \<Rightarrow> fwd_mem \<Rightarrow> fwd_mem" where
  "pass2 g cam input_data ids st = fold (refineOutput g cam input_data) ids st"

definition OccMap_cuda_forward ::
  "geom \<Rightarrow> camera \<Rightarrow> buffer \<Rightarrow> nat list \<Rightarrow> nat list \<Rightarrow> fwd_mem \<Rightarrow> fwd_mem" where
  "OccMap_cuda_forward g cam input_data ids1 ids2 st =
     pass2 g cam input_data ids2
       (st\<lparr>output_data := pass1 g cam input_data ids1 (output_data st)\<rparr>)"


section \<open>Notions the properties are stated with\<close>

text \<open>The offset of work item \<open>tid\<close> from the data pointer of the input, of the output and
  of the gradient tensors (\<^verbatim>\<open>vali\<close>, \<^verbatim>\<open>valgo\<close> of the kernels: the stride of the channel
  dimension is not added), and its offset in the index map.\<close>

definition voff :: "geom \<Rightarrow> nat \<Rightarrow> int" where
  "voff g tid = (case getCoordinates_1 tid (nrows g) (ncols g) of
     (b, r, c) \<Rightarrow> int b * is0 g + int r * is2 g + int c * is3 g)"

definition ioff :: "geom \<Rightarrow> nat \<Rightarrow> int" where
  "ioff g tid = (case getCoordinates_1 tid (nrows g) (ncols g) of
     (b, r, c) \<Rightarrow> int b * iMs0 g + int r * iMs2 g + int c * iMs3 g)"

text \<open>The three channels of the input point of work item \<open>tid\<close>, and its projection
  \<^verbatim>\<open>((x/z) * fx) + cx\<close>, \<^verbatim>\<open>((y/z) * fy) + cy\<close>.\<close>

definition x_in :: "geom \<Rightarrow> buffer \<Rightarrow> nat \<Rightarrow> f32" where
  "x_in g inp tid = inp (0 * is1 g + voff g tid)"

definition y_in :: "geom \<Rightarrow> buffer \<Rightarrow> nat \<Rightarrow> f32" where
  "y_in g inp tid = inp (1 * is1 g + voff g tid)"

definition z_in :: "geom \<Rightarrow> buffer \<Rightarrow> nat \<Rightarrow> f32" where
  "z_in g inp tid = inp (2 * is1 g + voff g tid)"

definition xpix_of :: "geom \<Rightarrow> camera \<Rightarrow> buffer \<Rightarrow> nat \<Rightarrow> f32" where
  "xpix_of g cam inp tid = fadd (fmul (fdiv (x_in g inp tid) (z_in g inp tid)) (fx cam)) (cx cam)"

definition ypix_of :: "geom \<Rightarrow> camera \<Rightarrow> buffer \<Rightarrow> nat \<Rightarrow> f32" where
  "ypix_of g cam inp tid = fadd (fmul (fdiv (y_in g inp tid) (z_in g inp tid)) (fy cam)) (cy cam)"

text \<open>Point \<open>i\<close> lands on cell \<open>j\<close>: same batch element, \<open>z > 0\<close>, and the rounded
  projection is the column and the row of \<open>j\<close>.\<close>

definition lands_on :: "geom \<Rightarrow> camera \<Rightarrow> buffer \<Rightarrow> nat \<Rightarrow> nat \<Rightarrow> bool" where
  "lands_on g cam inp i j =
     (case (getCoordinates_1 i (nrows g) (ncols g), getCoordinates_1 j (nrows g) (ncols g)) of
        ((b, r, c), (b', r', c')) \<Rightarrow>
          b = b' \<and> \<not> fle (z_in g inp i) (l2f 0) \<and>
          feq (fround (xpix_of g cam inp i)) (l2f (int c')) \<and>
          feq (fround (ypix_of g cam inp i)) (l2f (int r')))"

text \<open>The target offset as the kernels compute it,
  \<^verbatim>\<open>long valo = b*is0 + ypixr*is2 + xpixr*is3\<close>: \<^verbatim>\<open>ypixr\<close> and \<^verbatim>\<open>xpixr\<close> are floats, so
  the products and the sums are float operations and the result is truncated to the
  integer.\<close>

definition tgt_off :: "int \<Rightarrow> int \<Rightarrow> int \<Rightarrow> nat \<Rightarrow> f32 \<Rightarrow> f32 \<Rightarrow> int" where
  "tgt_off s0 s2 s3 b ypixr xpixr =
     f2l (fadd (fadd (l2f (int b * s0)) (fmul ypixr (l2f s2))) (fmul xpixr (l2f s3)))"

text \<open>What a thread of pass 1 or pass 2 computes before it touches the output: nothing
  for a point with \<open>z \<le> 0\<close> or a rounded projection outside the image, else the two
  projected coordinates, the depth and the two target offsets.\<close>

definition cand :: "geom \<Rightarrow> camera \<Rightarrow> buffer \<Rightarrow> nat \<Rightarrow> (f32 \<times> f32 \<times> f32 \<times> int \<times> int) option" where
  "cand g cam inp tid =
     (case getCoordinates_1 tid (nrows g) (ncols g) of (b, r, c) \<Rightarrow>
        if fle (z_in g inp tid) (l2f 0) then None
        else
          let xpixr = fround (xpix_of g cam inp tid); ypixr = fround (ypix_of g cam inp tid)
          in if fge xpixr (l2f 0) \<and> flt xpixr (l2f (int (ncols g))) \<and>
                fge ypixr (l2f 0) \<and> flt ypixr (l2f (int (nrows g)))
             then Some (xpix_of g cam inp tid, ypix_of g cam inp tid, z_in g inp tid,
                        tgt_off (is0 g) (is2 g) (is3 g) b ypixr xpixr,
                        tgt_off (iMs0 g) (iMs2 g) (iMs3 g) b ypixr xpixr)
             else None)"




text \<open>The address and the value of the one \<^verbatim>\<open>atomicMin\<close> of a thread of pass 1.\<close>

definition depth_write :: "geom \<Rightarrow> camera \<Rightarrow> buffer \<Rightarrow> nat \<Rightarrow> (int \<times> f32) option" where
  "depth_write g cam inp i =
     (if i < npoints g
      then (case cand g cam inp i of None \<Rightarrow> None
            | Some (xp, yp, z, valo, valim) \<Rightarrow> Some (2 * is1 g + valo, z))
      else None)"

text \<open>No input depth is the sentinel \<^verbatim>\<open>HUGE_VALF\<close> the caller fills the output with.\<close>

definition legal_depths :: "geom \<Rightarrow> buffer \<Rightarrow> bool" where
  "legal_depths g inp = (\<forall>i<npoints g. z_in g inp i \<noteq> HUGE_VALF)"





text \<open>The offset the backward kernel reads from the index map at cell \<open>j\<close>
  (\<^verbatim>\<open>long vali = (long)(*(indexMap + valim))\<close>); no other active thread of the launch
  writes where thread \<open>j\<close> writes.\<close>

definition grad_target :: "geom \<Rightarrow> buffer \<Rightarrow> nat \<Rightarrow> int" where
  "grad_target g imap j = f2l (imap (ioff g j))"

definition routes_disjoint :: "geom \<Rightarrow> buffer \<Rightarrow> nat list \<Rightarrow> nat \<Rightarrow> bool" where
  "routes_disjoint g imap ids j =
     (\<forall>j'\<in>set ids. j' < npoints g \<and> j' \<noteq> j \<and> grad_target g imap j' \<noteq> - 1 \<longrightarrow>
        (\<forall>k<3::nat. \<forall>k'<3::nat.
           int k * is1 g + grad_target g imap j' \<noteq> int k' * is1 g + grad_target g imap j))"

text \<open>The Jacobian-vector product of the pinhole projection as the specification writes
  it, \<open>(fx/z)*gx\<close>, \<open>(fy/z)*gy\<close> and \<open>(-x/z^2)*fx*gx + (-y/z^2)*fy*gy + gz\<close> for a point
  \<open>(x, y, z)\<close> and an output gradient \<open>(gx, gy, gz)\<close>, in the operations of binary32 and
  with \<open>pow2 z\<close> for the square; and the three channels of a buffer at an offset.\<close>

definition jvp_spec :: "camera \<Rightarrow> (f32 \<Rightarrow> f32) \<Rightarrow> f32 \<times> f32 \<times> f32 \<Rightarrow> f32 \<times> f32 \<times> f32 \<Rightarrow> f32 \<times> f32 \<times> f32" where
  "jvp_spec cam pow2 p gr =
     (case (p, gr) of ((x, y, z), (gx, gy, gz)) \<Rightarrow>
        (fmul (fdiv (fx cam) z) gx,
         fmul (fdiv (fy cam) z) gy,
         fadd (fadd (fmul (fmul (fdiv (fneg x) (pow2 z)) (fx cam)) gx)
                    (fmul (fmul (fdiv (fneg y) (pow2 z)) (fy cam)) gy)) gz))"

definition point_at :: "geom \<Rightarrow> buffer \<Rightarrow> int \<Rightarrow> f32 \<times> f32 \<times> f32" where
  "point_at g buf v = (buf (0 * is1 g + v), buf (1 * is1 g + v), buf (2 * is1 g + v))"


section \<open>Auxiliary notions for the proofs\<close>

text \<open>The magnitude as a function of the pattern without its sign bit.\<close>

definition mag_nat :: "nat \<Rightarrow> nat" where
  "mag_nat x = (if x div 2 ^ 23 = 0 then x mod 2 ^ 23 else (2 ^ 23 + x mod 2 ^ 23) * 2 ^ (x div 2 ^ 23 - 1))"


section \<open>Concrete inputs\<close>


definition cam_unit :: camera where
  "cam_unit = \<lparr>fy = 0x3F800000, fx = 0x3F800000, cy = 0, cx = 0\<rparr>"

text \<open>\<open>g_two\<close>: one row of two cells, contiguous.  \<open>g_big\<close>: two rows of two cells of a
  tensor whose rows are \<open>2^24\<close> elements apart, so that the offsets of the second row
  are \<open>2^24\<close> and \<open>2^24 + 1\<close>.  \<open>inp_c\<close> has the point \<open>(0, 0, 1)\<close> at cell 0 of \<open>g_two\<close>
  and zeros elsewhere; \<open>inp_tie\<close> has \<open>(0, 0, 1)\<close> and \<open>(0.25, 0, 1)\<close>; \<open>inp_big\<close> has
  \<open>(0, 1, 1)\<close> and \<open>inp_diag\<close> has \<open>(1, 1, 1)\<close> at the last cell of \<open>g_big\<close>;
  \<open>inp_out\<close> has \<open>(2, 0, 1)\<close> at cell 0 of \<open>g_two\<close>, whose projection is past the last
  column.\<close>

definition g_two :: geom where
  "g_two = \<lparr>batchSize = 1, nrows = 1, ncols = 2, is0 = 6, is1 = 2, is2 = 2, is3 = 1,
            iMs0 = 2, iMs1 = 2, iMs2 = 2, iMs3 = 1\<rparr>"

definition g_big :: geom where
  "g_big = \<lparr>batchSize = 1, nrows = 2, ncols = 2,
            is0 = 100663296, is1 = 33554432, is2 = 16777216, is3 = 1,
            iMs0 = 4, iMs1 = 4, iMs2 = 2, iMs3 = 1\<rparr>"

definition inp_c :: buffer where
  "inp_c = (\<lambda>_. 0)(4 := 0x3F800000)"


definition inp_big :: buffer where
  "inp_big = (\<lambda>_. 0)(50331649 := 0x3F800000, 83886081 := 0x3F800000)"

definition inp_diag :: buffer where
  "inp_diag = (\<lambda>_. 0)(16777217 := 0x3F800000, 50331649 := 0x3F800000, 83886081 := 0x3F800000)"


text \<open>The buffers as the caller prepares them, an index map that names the point at
  offset 0 for cell 0 and nothing for any other cell, an output gradient of ones, and
  the square as the result of \<^verbatim>\<open>pow(z,2)\<close>.\<close>

definition st_pre :: fwd_mem where
  "st_pre = \<lparr>output_data = (\<lambda>_. HUGE_VALF), indexMap_data = (\<lambda>_. l2f (- 1))\<rparr>"

definition imap_c :: buffer where
  "imap_c = (\<lambda>_. l2f (- 1))(0 := 0)"

definition gout_one :: buffer where
  "gout_one = (\<lambda>_. 0x3F800000)"

definition pow_sq :: "f32 \<Rightarrow> f32" where
  "pow_sq z = fmul z z"


abbreviation ids_big :: "nat list" where
  "ids_big \<equiv> launch_ids (numBlocks g_big)"

section \<open>Facts about the binary32 model\<close>

lemma mag_nat_upper: "mag_nat x < 2 ^ 23 * 2 ^ (x div 2 ^ 23)"
proof (cases "x div 2 ^ 23 = 0")
  case True
  then show ?thesis by (simp add: mag_nat_def)
next
  case False
  then obtain e where e: "x div 2 ^ 23 = Suc e" by (cases "x div 2 ^ 23") auto
  have "x mod 2 ^ 23 < (2::nat) ^ 23" by simp
  then have "(2 ^ 23 + x mod 2 ^ 23) * 2 ^ e < (2 ^ 23 + 2 ^ 23) * (2::nat) ^ e"
    by (intro mult_strict_right_mono) simp_all
  then show ?thesis using e by (simp add: mag_nat_def)
qed

lemma mag_nat_lower: "0 < x div 2 ^ 23 \<Longrightarrow> 2 ^ 23 * 2 ^ (x div 2 ^ 23 - 1) \<le> mag_nat x"
  by (simp add: mag_nat_def)

lemma mag_nat_strict_mono:
  assumes "x < y"
  shows "mag_nat x < mag_nat y"
proof -
  let ?E = "x div 2 ^ 23" and ?F = "y div 2 ^ 23"
  have le: "?E \<le> ?F" using assms by (simp add: div_le_mono)
  show ?thesis
  proof (cases "?E = ?F")
    case True
    from assms True have "x mod 2 ^ 23 < y mod 2 ^ 23"
      by (metis add_less_cancel_left div_mult_mod_eq)
    then show ?thesis using True assms by (simp add: mag_nat_def)
  next
    case False
    with le have lt: "?E < ?F" by simp
    then have "?E \<le> ?F - 1" by simp
    then have "(2::nat) ^ ?E \<le> 2 ^ (?F - 1)" by simp
    then have "2 ^ 23 * (2::nat) ^ ?E \<le> 2 ^ 23 * 2 ^ (?F - 1)" by simp
    moreover have "mag_nat x < 2 ^ 23 * 2 ^ ?E" by (rule mag_nat_upper)
    moreover have "2 ^ 23 * 2 ^ (?F - 1) \<le> mag_nat y" using lt by (intro mag_nat_lower) simp
    ultimately show ?thesis by linarith
  qed
qed

lemma mag_nat_le_iff: "mag_nat x \<le> mag_nat y \<longleftrightarrow> x \<le> y"
  using mag_nat_strict_mono [of x y] mag_nat_strict_mono [of y x]
  by (metis leD leI le_less)

lemma mag_nat_eq_iff: "mag_nat x = mag_nat y \<longleftrightarrow> x = y"
  using mag_nat_le_iff [of x y] mag_nat_le_iff [of y x] by auto

lemma unat_f32_bound: "unat (w::f32) < 2 ^ 32"
  using unsigned_less [of w, where 'a = nat] by simp

lemma f_exp_nosign: "\<not> f_sign w \<Longrightarrow> f_exp w = unat w div 2 ^ 23"
  by (simp add: f_sign_def f_exp_def not_le less_mult_imp_div_less)

lemma mag_nosign: "\<not> f_sign w \<Longrightarrow> mag w = mag_nat (unat w)"
  by (simp add: mag_def mag_nat_def f_exp_nosign f_frac_def)

lemma units_nosign: "\<not> f_sign w \<Longrightarrow> units w = int (mag_nat (unat w))"
  by (simp add: units_def mag_nosign)

lemma units_pos_nosign: "0 < units w \<Longrightarrow> \<not> f_sign w"
  by (auto simp: units_def split: if_splits)

lemma fle_bits:
  assumes "flt 0 a" "flt 0 b"
  shows "fle a b \<longleftrightarrow> a \<le> b"
proof -
  from assms have n: "\<not> is_nan a" "\<not> is_nan b" and p: "0 < units a" "0 < units b"
    by (auto simp: flt_def units_def mag_def f_sign_def f_exp_def f_frac_def)
  from p have s: "\<not> f_sign a" "\<not> f_sign b" by (auto dest: units_pos_nosign)
  show ?thesis using n s
    by (simp add: fle_def units_nosign mag_nat_le_iff word_le_nat_alt)
qed


lemma blen_0: "blen 0 = 0"
  by (subst blen.simps) simp

lemma blen_bounds: "0 < n \<Longrightarrow> 2 ^ (blen n - 1) \<le> n \<and> n < 2 ^ blen n"
proof (induction n rule: blen.induct)
  case (1 n)
  show ?case
  proof (cases "n div 2 = 0")
    case True
    with "1.prems" have "n = 1" by (simp add: div_eq_0_iff) 
    then show ?thesis by (simp add: blen.simps)
  next
    case False
    with "1.IH" "1.prems" have ih: "2 ^ (blen (n div 2) - 1) \<le> n div 2" "n div 2 < 2 ^ blen (n div 2)"
      by auto
    from False have pos: "0 < blen (n div 2)" by (subst blen.simps) simp
    have b: "blen n = Suc (blen (n div 2))" using "1.prems" by (subst blen.simps) simp
    from pos have "(2::nat) ^ blen (n div 2) = 2 * 2 ^ (blen (n div 2) - 1)"
      by (cases "blen (n div 2)") simp_all
    with ih have "2 ^ blen (n div 2) \<le> n" by linarith
    moreover from ih have "n < 2 * 2 ^ blen (n div 2)" by linarith
    ultimately show ?thesis by (simp add: b)
  qed
qed

lemma blen_le_iff: "blen n \<le> w \<longleftrightarrow> n < 2 ^ w"
proof (cases "n = 0")
  case True
  then show ?thesis by (simp add: blen_0)
next
  case False
  then have b: "2 ^ (blen n - 1) \<le> n" "n < 2 ^ blen n" using blen_bounds [of n] by auto
  from False have pos: "0 < blen n" by (subst blen.simps) simp
  show ?thesis
  proof
    assume "blen n \<le> w"
    then have "(2::nat) ^ blen n \<le> 2 ^ w" by simp
    with b show "n < 2 ^ w" by linarith
  next
    assume "n < 2 ^ w"
    with b have "(2::nat) ^ (blen n - 1) < 2 ^ w" by linarith
    then have "blen n - 1 < w" by simp
    with pos show "blen n \<le> w" by simp
  qed
qed

lemma rne_k_zero: "blen x - 24 = 0 \<Longrightarrow> x < 2 ^ 24"
  using blen_le_iff [of x 24] by simp

lemma rne_k_pos:
  assumes "0 < blen x - 24"
  shows "2 ^ (23 + (blen x - 24)) \<le> x \<and> x < 2 ^ (24 + (blen x - 24))"
proof -
  from assms have x: "0 < x" by (cases "x = 0") (simp_all add: blen_0)
  from assms have e: "blen x - 1 = 23 + (blen x - 24)" "blen x = 24 + (blen x - 24)" by simp_all
  from blen_bounds [OF x] show ?thesis using e by metis
qed

lemma div_mod_enc:
  fixes B :: nat
  assumes "m < B"
  shows "(k * B + m) div B = k" "(k * B + m) mod B = m"
  using assms by simp_all

lemma mag_nat_enc:
  assumes "n \<le> 2 ^ 24" "k = 0 \<or> 2 ^ 23 \<le> n"
  shows "mag_nat (k * 2 ^ 23 + n) = n * 2 ^ k"
proof -
  define B :: nat where "B = 2 ^ 23"
  have B2: "2 ^ 24 = 2 * B" by (simp add: B_def)
  have mn: "\<And>x. mag_nat x = (if x div B = 0 then x mod B else (B + x mod B) * 2 ^ (x div B - 1))"
    by (simp add: mag_nat_def B_def)
  have Bpos: "0 < B" by (simp add: B_def)
  consider "n < B" | "B \<le> n" "n < 2 * B" | "n = 2 * B" using assms(1) unfolding B2 by fastforce
  then have "mag_nat (k * B + n) = n * 2 ^ k"
  proof cases
    case 1
    with assms(2) have "k = 0" by (simp add: B_def)
    with 1 show ?thesis by (simp add: mn)
  next
    case 2
    define m where "m = n - B"
    from 2 have n: "n = B + m" and m: "m < B" by (simp_all add: m_def)
    have e: "k * B + n = Suc k * B + m" by (simp add: n)
    show ?thesis unfolding e mn div_mod_enc [OF m] by (simp add: n)
  next
    case 3
    have e: "k * B + n = (k + 2) * B + 0" by (simp add: 3)
    show ?thesis unfolding e mn div_mod_enc [OF Bpos] by (simp add: 3)
  qed
  then show ?thesis by (simp add: B_def)
qed

lemma rhe_div_exact: "0 < b \<Longrightarrow> b dvd a \<Longrightarrow> rhe_div a b = a div b"
  by (auto simp: rhe_div_def Let_def)

lemma rne_exact:
  assumes d: "0 < d" and dv: "d * 2 ^ (blen (p div d) - 24) dvd p" and fin: "p div d < 2 ^ 277"
  shows "mag_nat (rne p d) = p div d \<and> rne p d < 0x7F800000"
proof -
  define x where "x = p div d"
  define k where "k = blen x - 24"
  define n where "n = p div (d * 2 ^ k)"
  from dv have dv': "d * 2 ^ k dvd p" by (simp add: k_def x_def)
  then have dd: "d dvd p" by (rule dvd_mult_left)
  have xn: "x = n * 2 ^ k"
  proof -
    from dv' have "p = n * (d * 2 ^ k)" by (simp add: n_def)
    then have "p = (n * 2 ^ k) * d" by (simp add: mult_ac)
    then show ?thesis using d by (simp add: x_def)
  qed
  have r: "rhe_div p (d * 2 ^ k) = n" using d dv' by (simp add: rhe_div_exact n_def)
  have nb: "n < 2 ^ 24 \<and> (k = 0 \<or> 2 ^ 23 \<le> n)"
  proof (cases "k = 0")
    case True
    then have "x < 2 ^ 24" unfolding k_def by (rule rne_k_zero)
    with True xn show ?thesis by simp
  next
    case False
    then have "0 < blen x - 24" by (simp add: k_def)
    from rne_k_pos [OF this] have "2 ^ (23 + k) \<le> x" "x < 2 ^ (24 + k)" by (simp_all add: k_def)
    then have "2 ^ 23 * 2 ^ k \<le> n * 2 ^ k" "n * 2 ^ k < 2 ^ 24 * 2 ^ k"
      by (simp_all add: xn power_add)
    then show ?thesis by simp
  qed
  from fin have "blen x \<le> 277" by (simp add: blen_le_iff x_def)
  then have kb: "k \<le> 253" by (simp add: k_def)
  have "k * 2 ^ 23 \<le> 253 * (2::nat) ^ 23" using kb by (intro mult_right_mono) simp_all
  with nb have lt: "k * 2 ^ 23 + n < 0x7F800000" by simp
  have rn: "rne p d = k * 2 ^ 23 + n"
    using lt r unfolding rne_def Let_def k_def [symmetric] x_def [symmetric] by simp
  show ?thesis using mag_nat_enc [of n k] nb lt by (simp add: rn xn x_def [symmetric])
qed

lemma unat_pack: "m < 2 ^ 31 \<Longrightarrow> unat (pack s m) = (if s then 2 ^ 31 else 0) + m"
proof -
  assume "m < 2 ^ 31"
  then have "(if s then 2 ^ 31 else 0) + m < 2 ^ LENGTH(32)" by simp
  then show ?thesis unfolding pack_def by (intro of_nat_inverse [OF refl])
qed

lemma f_sign_pack: "m < 2 ^ 31 \<Longrightarrow> f_sign (pack s m) = s"
  by (simp add: f_sign_def unat_pack)

lemma f_exp_pack: "m < 2 ^ 31 \<Longrightarrow> f_exp (pack s m) = m div 2 ^ 23"
proof -
  assume m: "m < 2 ^ 31"
  then have d: "m div 2 ^ 23 < 256" by (simp add: less_mult_imp_div_less)
  have "(2 ^ 31 + m) div 2 ^ 23 = 256 + m div 2 ^ 23"
    using div_mult_self3 [of "2 ^ 23" 256 m] by simp
  with d have "((2 ^ 31 + m) div 2 ^ 23) mod 2 ^ 8 = m div 2 ^ 23" by simp
  moreover from d have "(m div 2 ^ 23) mod 2 ^ 8 = m div 2 ^ 23" by simp
  ultimately show ?thesis using m by (simp add: f_exp_def unat_pack)
qed

lemma f_frac_pack: "m < 2 ^ 31 \<Longrightarrow> f_frac (pack s m) = m mod 2 ^ 23"
proof -
  assume m: "m < 2 ^ 31"
  have "(2 ^ 31 + m) mod 2 ^ 23 = m mod 2 ^ 23"
    using mod_mult_self3 [of 256 "2 ^ 23" m] by simp
  then show ?thesis using m by (simp add: f_frac_def unat_pack)
qed

lemma mag_pack: "m < 2 ^ 31 \<Longrightarrow> mag (pack s m) = mag_nat m"
  by (simp add: mag_def mag_nat_def f_exp_pack f_frac_pack)

lemma units_pack: "m < 2 ^ 31 \<Longrightarrow> units (pack s m) = (if s then - int (mag_nat m) else int (mag_nat m))"
  by (simp add: units_def mag_pack f_sign_pack)

lemma rne_le: "rne p d \<le> 0x7F800000"
  by (simp add: rne_def Let_def)

lemma rne_lt31: "rne p d < 2 ^ 31"
  using rne_le [of p d] by simp

lemma not_nan_pack:
  assumes "m \<le> 0x7F800000"
  shows "\<not> is_nan (pack s m)"
proof -
  from assms have m: "m < 2 ^ 31" by simp
  show ?thesis
  proof
    assume "is_nan (pack s m)"
    then have e: "m div 2 ^ 23 = 255" and f: "m mod 2 ^ 23 \<noteq> 0"
      using m by (simp_all add: is_nan_def f_exp_pack f_frac_pack)
    have "m = (m div 2 ^ 23) * 2 ^ 23 + m mod 2 ^ 23" by simp
    with e have "m = 255 * 2 ^ 23 + m mod 2 ^ 23" by simp
    with f assms show False by simp
  qed
qed

lemma not_nan_pack_rne: "\<not> is_nan (pack s (rne p d))"
  by (rule not_nan_pack) (rule rne_le)

lemma is_finite_pack: "m < 0x7F800000 \<Longrightarrow> is_finite (pack s m)"
proof -
  assume a: "m < 0x7F800000"
  then have "m div 2 ^ 23 < 255" by (simp add: less_mult_imp_div_less)
  with a show ?thesis by (simp add: is_finite_def f_exp_pack)
qed

lemma rne_exact_pow:
  assumes c: "c < 2 ^ 24" and b: "c * 2 ^ j < 2 ^ 277"
  shows "mag_nat (rne (c * 2 ^ j) 1) = c * 2 ^ j \<and> rne (c * 2 ^ j) 1 < 0x7F800000"
proof -
  let ?x = "c * 2 ^ j"
  from c have "?x < 2 ^ 24 * 2 ^ j" by simp
  then have "?x < 2 ^ (24 + j)" by (simp add: power_add)
  then have "blen ?x \<le> 24 + j" by (simp only: blen_le_iff)
  then have "blen ?x - 24 \<le> j" by simp
  then have "(2::nat) ^ (blen ?x - 24) dvd 2 ^ j" by (rule le_imp_power_dvd)
  then have "(2::nat) ^ (blen ?x - 24) dvd ?x" by (rule dvd_mult)
  then have "1 * 2 ^ (blen (?x div 1) - 24) dvd ?x" by simp
  from rne_exact [OF _ this] b show ?thesis by simp
qed

lemma rne_zero: "0 < d \<Longrightarrow> rne 0 d = 0"
  by (simp add: rne_def rhe_div_def blen_0)


lemma rne_int_exact:
  assumes "n \<le> 2 ^ 24"
  shows "mag_nat (rne (n * one_units) 1) = n * one_units \<and> rne (n * one_units) 1 < 0x7F800000"
proof (cases "n < 2 ^ 24")
  case True
  have "n * 2 ^ 149 < 2 ^ 24 * (2::nat) ^ 149" using True by (intro mult_strict_right_mono) simp_all
  then have "n * 2 ^ 149 < (2::nat) ^ 277" by simp
  from rne_exact_pow [OF True this] show ?thesis by (simp add: one_units_def)
next
  case False
  with assms have n: "n = 2 ^ 24" by simp
  have e: "n * one_units = 1 * 2 ^ 173" by (simp add: n one_units_def)
  have "(1::nat) < 2 ^ 24" "(1::nat) * 2 ^ 173 < 2 ^ 277" by simp_all
  from rne_exact_pow [OF this] show ?thesis unfolding e by simp
qed

lemma l2f_exact:
  assumes "\<bar>n\<bar> \<le> 2 ^ 24"
  shows "units (l2f n) = n * int one_units" "\<not> is_nan (l2f n)" "is_finite (l2f n)"
proof -
  from assms have "nat \<bar>n\<bar> \<le> 2 ^ 24" by simp
  from rne_int_exact [OF this]
  have m: "mag_nat (rne (nat \<bar>n\<bar> * one_units) 1) = nat \<bar>n\<bar> * one_units"
    and f: "rne (nat \<bar>n\<bar> * one_units) 1 < 0x7F800000" by simp_all
  from f have lt: "rne (nat \<bar>n\<bar> * one_units) 1 < 2 ^ 31" by simp
  show "units (l2f n) = n * int one_units"
    unfolding l2f_def units_pack [OF lt] m by (simp add: nat_mult_distrib)
  show "\<not> is_nan (l2f n)" unfolding l2f_def by (rule not_nan_pack_rne)
  show "is_finite (l2f n)" unfolding l2f_def using f by (rule is_finite_pack)
qed

lemma one_units_pos: "0 < one_units"
  by (simp add: one_units_def)

lemma f2l_exact:
  assumes u: "units w = n * int one_units" and nn: "\<not> is_nan w"
    and r: "- (2 ^ 63) \<le> n" "n \<le> 2 ^ 63 - 1"
  shows "f2l w = n"
proof -
  have U: "int one_units \<noteq> 0" using one_units_pos by simp
  show ?thesis
  proof (cases "f_sign w")
  case True
  with u have "int (mag w) = (- n) * int one_units" by (simp add: units_def)
  with U have "int (mag w) div int one_units = - n" by (metis nonzero_mult_div_cancel_right)
  then have "int (mag w div one_units) = - n" by (simp add: zdiv_int)
  then show ?thesis using True nn r by (simp add: f2l_def Let_def)
next
  case False
  with u have "int (mag w) = n * int one_units" by (simp add: units_def)
  with U have "int (mag w) div int one_units = n" by (metis nonzero_mult_div_cancel_right)
  then have "int (mag w div one_units) = n" by (simp add: zdiv_int)
  then show ?thesis using False nn r by (simp add: f2l_def Let_def)
qed
qed

lemma roundtrip_small: "\<bar>n\<bar> \<le> 2 ^ 24 \<Longrightarrow> f2l (l2f n) = n"
  by (rule f2l_exact) (simp_all add: l2f_exact)

lemma mag_decomp:
  assumes "is_finite w"
  shows "\<exists>c j. mag w = c * 2 ^ j \<and> c < 2 ^ 24 \<and> c * 2 ^ j < 2 ^ 277"
proof (cases "f_exp w = 0")
  case True
  have f: "f_frac w < 2 ^ 23" by (simp add: f_frac_def)
  then have "mag w = f_frac w * 2 ^ 0 \<and> f_frac w < 2 ^ 24 \<and> f_frac w * 2 ^ 0 < 2 ^ 277"
    using True by (simp add: mag_def)
  then show ?thesis by blast
next
  case False
  let ?c = "2 ^ 23 + f_frac w" and ?j = "f_exp w - 1"
  have f: "f_frac w < 2 ^ 23" by (simp add: f_frac_def)
  then have c: "?c < 2 ^ 24" by simp
  from assms have "?j \<le> 253" by (simp add: is_finite_def)
  then have "(2::nat) ^ ?j \<le> 2 ^ 253" by (rule power_increasing) simp
  then have "?c * 2 ^ ?j \<le> ?c * 2 ^ 253" by (rule mult_le_mono2)
  also have "\<dots> < 2 ^ 24 * 2 ^ 253" using c by (intro mult_strict_right_mono) simp_all
  finally have "?c * 2 ^ ?j < 2 ^ 277" by simp
  with c False have "mag w = ?c * 2 ^ ?j \<and> ?c < 2 ^ 24 \<and> ?c * 2 ^ ?j < 2 ^ 277"
    by (simp add: mag_def)
  then show ?thesis by blast
qed

lemma l2f_repr:
  assumes fin: "is_finite w" and u: "units w = n * int one_units"
  shows "units (l2f n) = n * int one_units" "\<not> is_nan (l2f n)"
proof -
  have m: "mag w = nat \<bar>n\<bar> * one_units"
  proof -
    have "int (mag w) = \<bar>units w\<bar>" by (simp add: units_def)
    also have "\<dots> = \<bar>n\<bar> * int one_units" by (simp add: u abs_mult)
    finally have "nat (int (mag w)) = nat (\<bar>n\<bar> * int one_units)" by simp
    then show ?thesis by (simp add: nat_mult_distrib)
  qed
  from mag_decomp [OF fin] obtain c j where
    d: "mag w = c * 2 ^ j" "c < 2 ^ 24" "c * 2 ^ j < 2 ^ 277" by blast
  from rne_exact_pow [OF d(2,3)] have
    r: "mag_nat (rne (mag w) 1) = mag w" "rne (mag w) 1 < 0x7F800000" by (simp_all add: d(1))
  from r(2) have lt: "rne (nat \<bar>n\<bar> * one_units) 1 < 2 ^ 31" by (simp add: m)
  from r(1) have r': "mag_nat (rne (nat \<bar>n\<bar> * one_units) 1) = nat \<bar>n\<bar> * one_units"
    by (simp only: m)
  show "units (l2f n) = n * int one_units"
    unfolding l2f_def units_pack [OF lt] r' by (simp add: nat_mult_distrib)
  show "\<not> is_nan (l2f n)" unfolding l2f_def by (rule not_nan_pack_rne)
qed

lemma roundtrip_repr:
  assumes "is_finite w" "units w = n * int one_units" "- (2 ^ 63) \<le> n" "n \<le> 2 ^ 63 - 1"
  shows "f2l (l2f n) = n"
  using l2f_repr [OF assms(1,2)] assms(3,4) by (intro f2l_exact)





lemmas fdefs = f_sign_def f_exp_def f_frac_def is_nan_def is_inf_def is_finite_def one_units_def mag_def units_def
  flt_def fle_def fge_def feq_def rhe_div_def rne_def pack_def qnan_def HUGE_VALF_def fdiv_def fmul_def fadd_def
  fneg_def l2f_def f2l_def fround_def Let_def blen.simps

lemma l2f_0: "l2f 0 = 0" by (simp add: fdefs)









lemma units_huge: "units HUGE_VALF = 2 ^ 277" "\<not> is_nan HUGE_VALF" "\<not> is_finite HUGE_VALF"
  by (simp_all add: fdefs)










lemma word_eq_of_units:
  assumes "0 < units a" "units b = units a"
  shows "b = a"
proof -
  from assms have "0 < units b" by simp
  with assms(1) have s: "\<not> f_sign a" "\<not> f_sign b" by (auto dest: units_pos_nosign)
  with assms(2) have "mag_nat (unat b) = mag_nat (unat a)" by (simp add: units_nosign)
  then have "unat b = unat a" by (simp only: mag_nat_eq_iff)
  then show ?thesis by (rule word_unat_eq_iff [THEN iffD2])
qed

lemma feq_pos: "0 < units a \<Longrightarrow> \<not> is_nan a \<Longrightarrow> feq b a \<longleftrightarrow> b = a"
  by (auto simp: feq_def dest: word_eq_of_units)

lemma feq_huge: "feq a HUGE_VALF \<longleftrightarrow> a = HUGE_VALF"
  using feq_pos [of HUGE_VALF a] by (simp add: units_huge)



section \<open>Launch geometry\<close>

declare upt_rec_numeral [simp del]

lemma launch_ids_upt: "launch_ids nb = [0..<nb * 256]"
proof (induction nb)
  case 0
  show ?case by (simp add: launch_ids_def)
next
  case (Suc nb)
  have a: "map (\<lambda>t. nb * 256 + t) [0..<256] = [nb * 256..<nb * 256 + 256]"
    using map_add_upt [of "nb * 256" 256] by (simp add: add.commute)
  have b: "[0..<nb * 256 + 256] = [0..<nb * 256] @ [nb * 256..<nb * 256 + 256]"
    using upt_add_eq_append [of 0 "nb * 256" 256] by simp
  have "launch_ids (Suc nb) = launch_ids nb @ map (\<lambda>t. nb * 256 + t) [0..<256]"
    by (simp add: launch_ids_def)
  also have "\<dots> = [0..<nb * 256 + 256]" by (simp only: Suc a b)
  also have "nb * 256 + 256 = Suc nb * 256" by simp
  finally show ?case .
qed

lemma numBlocks_bounds: "npoints g \<le> numBlocks g * 256 \<and> numBlocks g * 256 < npoints g + 256"
proof -
  have "(npoints g + 255) div 256 * 256 + (npoints g + 255) mod 256 = npoints g + 255"
    by (rule div_mult_mod_eq)
  moreover have "(npoints g + 255) mod 256 < 256" by simp
  ultimately show ?thesis unfolding numBlocks_def by linarith
qed

section \<open>The kernels in terms of candidates and target cells\<close>

lemma projectPointsAndDepthTest_cand:
  "tid < npoints g \<Longrightarrow> projectPointsAndDepthTest g cam inp tid out =
     (case cand g cam inp tid of None \<Rightarrow> out
      | Some (xp, yp, z, valo, valim) \<Rightarrow> atomicMin out (2 * is1 g + valo) z)"
  by (simp add: projectPointsAndDepthTest_def cand_def Let_def voff_def x_in_def y_in_def z_in_def
      xpix_of_def ypix_of_def tgt_off_def split: prod.splits)

lemma refineOutput_cand:
  "tid < npoints g \<Longrightarrow> refineOutput g cam inp tid st =
     (let st1 = (if feq (output_data st (2 * is1 g + voff g tid)) HUGE_VALF
                 then st\<lparr>output_data := (output_data st)(2 * is1 g + voff g tid := l2f 0)\<rparr>
                 else st)
      in case cand g cam inp tid of None \<Rightarrow> st1
         | Some (xp, yp, z, valo, valim) \<Rightarrow>
             if feq (output_data st1 (2 * is1 g + valo)) z
             then st1\<lparr>output_data := (output_data st1)(0 * is1 g + valo := xp, 1 * is1 g + valo := yp),
                     indexMap_data := (indexMap_data st1)(valim := l2f (voff g tid))\<rparr>
             else st1)"
  by (simp add: refineOutput_def cand_def Let_def voff_def x_in_def y_in_def z_in_def
      xpix_of_def ypix_of_def tgt_off_def split: prod.splits)

















lemma thread1_write:
  "projectPointsAndDepthTest g cam inp i out =
     (case depth_write g cam inp i of None \<Rightarrow> out | Some (a, z) \<Rightarrow> atomicMin out a z)"
proof (cases "i < npoints g")
  case True
  then show ?thesis
    by (simp add: projectPointsAndDepthTest_cand depth_write_def split: option.splits)
next
  case False
  then show ?thesis by (simp add: projectPointsAndDepthTest_def depth_write_def)
qed

lemma pass1_at:
  "(pass1 g cam inp ids out a = out a \<or> (\<exists>i\<in>set ids. depth_write g cam inp i = Some (a, pass1 g cam inp ids out a))) \<and>
   pass1 g cam inp ids out a \<le> out a \<and>
   (\<forall>i\<in>set ids. \<forall>z. depth_write g cam inp i = Some (a, z) \<longrightarrow> pass1 g cam inp ids out a \<le> z)"
proof (induction ids arbitrary: out)
  case Nil
  show ?case by (simp add: pass1_def)
next
  case (Cons i ids)
  let ?o = "projectPointsAndDepthTest g cam inp i out"
  have st: "pass1 g cam inp (i # ids) out = pass1 g cam inp ids ?o" by (simp add: pass1_def)
  have oa: "?o a = (case depth_write g cam inp i of None \<Rightarrow> out a
                    | Some (a', z) \<Rightarrow> if a' = a then min (out a) z else out a)"
    by (simp add: thread1_write atomicMin_def split: option.splits)
  from Cons [of ?o] show ?case unfolding st oa
    by (auto simp: min_def split: option.splits if_splits)
qed

lemma pass1_other:
  assumes "\<forall>i\<in>set ids. \<forall>z. depth_write g cam inp i \<noteq> Some (a, z)"
  shows "pass1 g cam inp ids out a = out a"
  using pass1_at [of g cam inp ids out a] assms by auto















lemma schedule_set_eq: "schedule g ids \<Longrightarrow> schedule g ids' \<Longrightarrow> set ids = set ids'"
  by (simp add: schedule_def)












lemma f2l_minus_one: "f2l (l2f (- 1)) = - 1"
  by (rule roundtrip_small) simp






lemma grad_thread:
  assumes "j < npoints g"
  shows "projectionGradient g cam pw inp gout imap j gin =
     (if grad_target g imap j = - 1 then gin
      else case jvp_spec cam pw (point_at g inp (grad_target g imap j)) (point_at g gout (voff g j)) of
        (a, b, c) \<Rightarrow> gin(0 * is1 g + grad_target g imap j := a,
                        1 * is1 g + grad_target g imap j := b,
                        2 * is1 g + grad_target g imap j := c))"
  using assms
  by (simp add: projectionGradient_def grad_target_def ioff_def voff_def jvp_spec_def point_at_def Let_def
      split: prod.splits)



lemma grad_thread_writes:
  assumes j: "j < npoints g" and v: "grad_target g imap j \<noteq> - 1" and s: "is1 g \<noteq> 0"
  shows "point_at g (projectionGradient g cam pw inp gout imap j gin) (grad_target g imap j) =
           jvp_spec cam pw (point_at g inp (grad_target g imap j)) (point_at g gout (voff g j))"
  using v s by (simp add: grad_thread [OF j] point_at_def split: prod.splits)









section \<open>The kernels on the concrete inputs\<close>

text \<open>Threads past \<open>npoints\<close> return at the guard, so a launch is the fold over the
  work items.\<close>

lemma fold_ident: "(\<forall>x\<in>set xs. f x = id) \<Longrightarrow> fold f xs = id"
  by (induction xs) simp_all

lemma launch_split: "launch_ids (numBlocks g) = [0..<npoints g] @ [npoints g..<numBlocks g * 256]"
  using numBlocks_bounds [of g] upt_add_eq_append [of 0 "npoints g" "numBlocks g * 256 - npoints g"]
  by (simp add: launch_ids_upt)

lemma pass1_launch:
  "pass1 g cam inp (launch_ids (numBlocks g)) out = pass1 g cam inp [0..<npoints g] out"
proof -
  have "fold (projectPointsAndDepthTest g cam inp) [npoints g..<numBlocks g * 256] = id"
    by (rule fold_ident) (auto simp: projectPointsAndDepthTest_def fun_eq_iff)
  then show ?thesis by (simp add: pass1_def launch_split)
qed

lemma refine_idle: "npoints g \<le> x \<Longrightarrow> refineOutput g cam inp x = id"
  by (simp add: refineOutput_def fun_eq_iff)

lemma pass2_launch:
  "pass2 g cam inp (launch_ids (numBlocks g)) st = pass2 g cam inp [0..<npoints g] st"
proof -
  have "fold (refineOutput g cam inp) [npoints g..<numBlocks g * 256] = id"
    by (rule fold_ident) (simp add: refine_idle)
  then show ?thesis by (simp add: pass2_def launch_split)
qed




lemma np_two: "npoints g_two = 2"
  by (simp add: npoints_def g_two_def)

lemma np_big: "npoints g_big = 4"
  by (simp add: npoints_def g_big_def)


lemma upt_4: "[0..<4] = [0, Suc 0, 2, 3]"
proof -
  have "[0..<Suc (Suc (Suc (Suc 0)))] = [0, Suc 0, Suc (Suc 0), Suc (Suc (Suc 0))]" by simp
  then show ?thesis by (simp add: eval_nat_numeral)
qed

lemma voff_two: "voff g_two 0 = 0" "voff g_two (Suc 0) = 1" "ioff g_two 0 = 0" "ioff g_two (Suc 0) = 1"
  by (simp_all add: voff_def ioff_def getCoordinates_1_def g_two_def)

lemma voff_big: "voff g_big 0 = 0" "voff g_big (Suc 0) = 1" "voff g_big 2 = 16777216" "voff g_big 3 = 16777217"
  "ioff g_big 0 = 0" "ioff g_big (Suc 0) = 1" "ioff g_big 2 = 2" "ioff g_big 3 = 3"
  by (simp_all add: voff_def ioff_def getCoordinates_1_def g_big_def)

lemma sel_two: "is1 g_two = 2" "nrows g_two = 1" "ncols g_two = 2"
  by (simp_all add: g_two_def)

lemma sel_big: "is1 g_big = 33554432" "nrows g_big = 2" "ncols g_big = 2"
  by (simp_all add: g_big_def)


lemma less_two_cases: "i < (2::nat) \<Longrightarrow> i = 0 \<or> i = Suc 0"
  by auto



text \<open>Float operations on the values the examples use.\<close>

lemma fv_conv: "l2f 1 = 0x3F800000" "l2f 2 = 0x40000000" "l2f (- 1) = 0xBF800000"
  "l2f 16777217 = 0x4B800000" "l2f 16777216 = 0x4B800000"
  by (simp_all add: fdefs)

lemma fv_f2l: "f2l 0 = 0" "f2l 0x4B800000 = 16777216" "f2l 0xBF800000 = - 1" "f2l 0x3F800000 = 1"
  by (simp_all add: fdefs)

lemma fv_cmp: "\<not> fle 0x3F800000 0" "fle 0 0" "fge 0 0" "flt 0 0x40000000" "flt 0 0x3F800000"
  "feq 0x3F800000 0x3F800000" "fge 0x3F800000 0" "flt 0x3F800000 0x40000000" "feq 0 0"
  by (simp_all add: fdefs)

lemma fv_arith: "fdiv 0 0x3F800000 = 0" "fmul 0 0x3F800000 = 0" "fadd 0 0 = 0" "fround 0 = 0"
  "fdiv 0x3F800000 0x3F800000 = 0x3F800000" "fmul 0x3F800000 0x3F800000 = 0x3F800000"
  "fadd 0x3F800000 0 = 0x3F800000" "fround 0x3F800000 = 0x3F800000"
  "fdiv 0x3E800000 0x3F800000 = 0x3E800000" "fmul 0x3E800000 0x3F800000 = 0x3E800000"
  "fadd 0x3E800000 0 = 0x3E800000" "fround 0x3E800000 = 0"
  by (simp_all add: fdefs)

lemma fv_neg: "fneg 0 = 0x80000000" "fdiv 0x80000000 0x3F800000 = 0x80000000"
  "fmul 0x80000000 0x3F800000 = 0x80000000" "fadd 0x80000000 0x80000000 = 0x80000000"
  "fadd 0x80000000 0x3F800000 = 0x3F800000"
  by (simp_all add: fdefs)


lemma fv_tgt_two: "tgt_off 6 2 1 0 0 0 = 0" "tgt_off 2 2 1 0 0 0 = 0"
  by (simp_all add: tgt_off_def fdefs)

lemma fv_tgt_big: "tgt_off 100663296 16777216 1 0 0x3F800000 0 = 16777216"
  "tgt_off 100663296 16777216 1 0 0x3F800000 0x3F800000 = 16777216"
  "tgt_off 4 2 1 0 0x3F800000 0 = 2" "tgt_off 4 2 1 0 0x3F800000 0x3F800000 = 3"
  by (simp_all add: tgt_off_def fdefs)

lemma fv_tgt_contig: "tgt_off 230400 320 1 100 0 0x3F800000 = 23040000"
  by (simp add: tgt_off_def fdefs)

lemmas cand_eval = cand_def getCoordinates_1_def cam_unit_def voff_def
  x_in_def y_in_def z_in_def xpix_of_def ypix_of_def Let_def l2f_0 fv_conv fv_cmp fv_arith

lemma cand_c: "cand g_two cam_unit inp_c 0 = Some (0, 0, 0x3F800000, 0, 0)"
  "cand g_two cam_unit inp_c (Suc 0) = None"
  by (simp_all add: cand_eval g_two_def inp_c_def fv_tgt_two)


lemma cand_big: "cand g_big cam_unit inp_big 0 = None" "cand g_big cam_unit inp_big (Suc 0) = None"
  "cand g_big cam_unit inp_big 2 = None"
  "cand g_big cam_unit inp_big 3 = Some (0, 0x3F800000, 0x3F800000, 16777216, 2)"
  by (simp_all add: cand_eval g_big_def inp_big_def fv_tgt_big)

lemma cand_diag: "cand g_big cam_unit inp_diag 0 = None" "cand g_big cam_unit inp_diag (Suc 0) = None"
  "cand g_big cam_unit inp_diag 2 = None"
  "cand g_big cam_unit inp_diag 3 = Some (0x3F800000, 0x3F800000, 0x3F800000, 16777216, 3)"
  by (simp_all add: cand_eval g_big_def inp_diag_def fv_tgt_big)

lemma min_huge_one: "min HUGE_VALF 0x3F800000 = 0x3F800000"
  by (simp add: HUGE_VALF_def)

lemma huge_ne: "(0x3F800000 :: f32) \<noteq> HUGE_VALF" "(0 :: f32) \<noteq> HUGE_VALF"
  by (simp_all add: HUGE_VALF_def)



lemma pass1_big:
  "pass1 g_big cam_unit inp_big (launch_ids (numBlocks g_big)) (\<lambda>_. HUGE_VALF) = (\<lambda>_. HUGE_VALF)(83886080 := 0x3F800000)"
  unfolding pass1_launch np_big upt_4
  by (simp add: pass1_def projectPointsAndDepthTest_cand np_big cand_big atomicMin_def sel_big min_huge_one)

lemma pass1_diag:
  "pass1 g_big cam_unit inp_diag (launch_ids (numBlocks g_big)) (\<lambda>_. HUGE_VALF) = (\<lambda>_. HUGE_VALF)(83886080 := 0x3F800000)"
  unfolding pass1_launch np_big upt_4
  by (simp add: pass1_def projectPointsAndDepthTest_cand np_big cand_diag atomicMin_def sel_big min_huge_one)

lemmas pass2_eval = pass2_def refineOutput_cand feq_huge huge_ne l2f_0 fv_cmp fv_conv




lemma forward_big:
  "OccMap_cuda_forward g_big cam_unit inp_big (launch_ids (numBlocks g_big)) (launch_ids (numBlocks g_big)) st_pre =
     \<lparr>output_data = (\<lambda>_. HUGE_VALF)(83886080 := 0x3F800000, 67108864 := 0, 67108865 := 0, 83886081 := 0,
                       16777216 := 0, 50331648 := 0x3F800000),
      indexMap_data = (\<lambda>_. l2f (- 1))(2 := 0x4B800000)\<rparr>"
proof -
  have "OccMap_cuda_forward g_big cam_unit inp_big (launch_ids (numBlocks g_big)) (launch_ids (numBlocks g_big)) st_pre =
      pass2 g_big cam_unit inp_big [0, Suc 0, 2, 3]
        \<lparr>output_data = (\<lambda>_. HUGE_VALF)(83886080 := 0x3F800000), indexMap_data = (\<lambda>_. l2f (- 1))\<rparr>"
    unfolding OccMap_cuda_forward_def pass2_launch np_big upt_4 by (simp add: st_pre_def pass1_big)
  also have "\<dots> = \<lparr>output_data = (\<lambda>_. HUGE_VALF)(83886080 := 0x3F800000, 67108864 := 0, 67108865 := 0, 83886081 := 0,
                       16777216 := 0, 50331648 := 0x3F800000),
      indexMap_data = (\<lambda>_. l2f (- 1))(2 := 0x4B800000)\<rparr>"
    by (simp add: pass2_eval np_big cand_big sel_big voff_big)
  finally show ?thesis .
qed





lemma z_in_diag: "z_in g_big inp_diag 0 = 0" "z_in g_big inp_diag (Suc 0) = 0"
  "z_in g_big inp_diag 2 = 0" "z_in g_big inp_diag 3 = 0x3F800000"
  by (simp_all add: z_in_def voff_big sel_big inp_diag_def)

lemma less_four_cases: "i < (4::nat) \<Longrightarrow> i = 0 \<or> i = Suc 0 \<or> i = 2 \<or> i = 3"
  by auto




lemma legal_diag: "legal_depths g_big inp_diag"
  unfolding legal_depths_def np_big using z_in_diag huge_ne by (auto dest!: less_four_cases)









lemma in_two: "0 < npoints g_two" "Suc 0 < npoints g_two"
  by (simp_all add: np_two)

lemma in_big: "2 < npoints g_big" "3 < npoints g_big"
  by (simp_all add: np_big)


lemma routes_c: "routes_disjoint g_two imap_c ids 0"
  unfolding routes_disjoint_def np_two
  by (auto dest!: less_two_cases simp: grad_target_def voff_two imap_c_def f2l_minus_one)

lemma jvp_c:
  "jvp_spec cam_unit pow_sq (0, 0, 0x3F800000) (0x3F800000, 0x3F800000, 0x3F800000) =
     (0x3F800000, 0x3F800000, 0x3F800000)"
  by (simp add: jvp_spec_def cam_unit_def pow_sq_def fv_arith fv_neg)

lemma lands_c00: "lands_on g_two cam_unit inp_c 0 0"
  by (simp add: lands_on_def getCoordinates_1_def cam_unit_def voff_def x_in_def y_in_def z_in_def
      xpix_of_def ypix_of_def l2f_0 fv_cmp fv_arith g_two_def inp_c_def)



lemma refine_index_values:
  "indexMap_data (refineOutput g cam inp tid st) a = indexMap_data st a \<or>
   indexMap_data (refineOutput g cam inp tid st) a = l2f (voff g tid)"
proof (cases "tid < npoints g")
  case True
  then show ?thesis
    by (simp add: refineOutput_cand Let_def split: option.splits prod.splits)
next
  case False
  then show ?thesis by (simp add: refineOutput_def)
qed

lemma fv_repr: "is_finite 0x4B800001" "units 0x4B800001 = 16777218 * int one_units"
  by (simp_all add: fdefs)

lemma refine_c0:
  "indexMap_data (refineOutput g_two cam_unit inp_c 0
      \<lparr>output_data = (\<lambda>_. HUGE_VALF)(4 := 0x3F800000), indexMap_data = (\<lambda>_. l2f (- 1))\<rparr>) 0 = l2f (voff g_two 0)"
  by (simp add: refineOutput_cand np_two cand_c sel_two voff_two feq_huge huge_ne l2f_0 fv_cmp)

lemma grad_c0:
  "f2l (imap_c (ioff g_two 0)) = 0"
  by (simp add: voff_two imap_c_def fv_f2l)

lemma strides_big: "is0 g_big = 100663296" "is2 g_big = 16777216" "is3 g_big = 1"
  by (simp_all add: g_big_def)

lemma fv_ne: "\<not> feq 0x3F800000 0"
  by (simp add: fdefs)

lemma not_lands_diag:
  "\<not> lands_on g_big cam_unit inp_diag 0 j" "\<not> lands_on g_big cam_unit inp_diag (Suc 0) j"
  "\<not> lands_on g_big cam_unit inp_diag 2 j"
  by (simp_all add: lands_on_def z_in_diag fv_cmp l2f_0 split: prod.splits)






section \<open>Pass 1: the depth test (C1)\<close>

text \<open>C1 (the kernel departs from the property): on the grid \<open>g_big\<close>, whose second
  row starts \<open>2^24\<close> elements after the first, the point \<open>(1, 1, 1)\<close> stored at the last
  cell (row 1, column 1) is the only point with a positive depth and it lands on that
  same cell.  After pass 1 over an output filled with the sentinel, the depth channel
  of that cell still holds the sentinel, and the depth channel of its left neighbour
  (row 1, column 0), on which no point lands, holds the depth of the point: the kernel
  evaluates the target offset \<^verbatim>\<open>b*is0 + ypixr*is2 + xpixr*is3\<close> in float arithmetic,
  where the offset \<open>2^24 + 1\<close> of the cell rounds to the offset \<open>2^24\<close> of its
  neighbour.  The same expression for batch element 100, row 0, column 1 of a
  contiguous tensor of images of 240 rows and 320 columns gives 23040000, not
  23040001.  (For offsets up to \<open>2^24\<close> the depth after pass 1 is the least depth of
  the points that land on the cell, or the sentinel: lemma \<open>pass1_depth\<close>.)\<close>

theorem pass1_offset_slip:
  "3 < npoints g_big \<and> lands_on g_big cam_unit inp_diag 3 3 \<and>
   pass1 g_big cam_unit inp_diag ids_big (\<lambda>_. HUGE_VALF) (2 * is1 g_big + voff g_big 3) = HUGE_VALF \<and>
   \<not> lands_on g_big cam_unit inp_diag 0 2 \<and> \<not> lands_on g_big cam_unit inp_diag (Suc 0) 2 \<and>
   \<not> lands_on g_big cam_unit inp_diag 2 2 \<and> \<not> lands_on g_big cam_unit inp_diag 3 2 \<and>
   pass1 g_big cam_unit inp_diag ids_big (\<lambda>_. HUGE_VALF) (2 * is1 g_big + voff g_big 2) = z_in g_big inp_diag 3 \<and>
   tgt_off (is0 g_big) (is2 g_big) (is3 g_big) 0 (l2f 1) (l2f 1) = voff g_big 2 \<and>
   voff g_big 2 \<noteq> voff g_big 3 \<and>
   tgt_off 230400 320 1 100 (l2f 0) (l2f 1) = 23040000"
proof -
  have 1: "lands_on g_big cam_unit inp_diag 3 3" "\<not> lands_on g_big cam_unit inp_diag 3 2"
    by (simp_all add: lands_on_def getCoordinates_1_def cam_unit_def voff_def x_in_def y_in_def z_in_def
      xpix_of_def ypix_of_def l2f_0 fv_conv fv_cmp fv_ne fv_arith g_big_def inp_diag_def)
  have 2: "pass1 g_big cam_unit inp_diag ids_big (\<lambda>_. HUGE_VALF) (2 * is1 g_big + voff g_big 3) = HUGE_VALF"
    "pass1 g_big cam_unit inp_diag ids_big (\<lambda>_. HUGE_VALF) (2 * is1 g_big + voff g_big 2) = z_in g_big inp_diag 3"
    by (simp_all add: pass1_diag sel_big voff_big z_in_diag)
  have 3: "tgt_off (is0 g_big) (is2 g_big) (is3 g_big) 0 (l2f 1) (l2f 1) = voff g_big 2"
    "voff g_big 2 \<noteq> voff g_big 3"
    "tgt_off 230400 320 1 100 (l2f 0) (l2f 1) = 23040000"
    by (simp_all add: voff_big fv_conv l2f_0 fv_tgt_big fv_tgt_contig strides_big)
  from 1 2 3 not_lands_diag in_big(2) show ?thesis by blast
qed

section \<open>Bit patterns of positive floats (C2)\<close>



section \<open>The index map after the forward pass (C3)\<close>




section \<open>Pass 2 clears the sentinel (C4)\<close>



section \<open>The recorded winner (C5)\<close>




section \<open>The gradient of the projection (C6)\<close>



section \<open>Points without a valid projection (C7)\<close>




section \<open>Independence of the schedule (C8)\<close>




section \<open>Launch size and the range guard (C9)\<close>




section \<open>The offset stored as a float (C10)\<close>

text \<open>C10: pass 2 writes no other value into the index map than the offset of the
  thread's own point converted to binary32, and the backward kernel routes the gradient
  to the offset it gets by truncating the entry to an integer.  Conversion followed by
  truncation returns every offset of magnitude up to \<open>2^24\<close>, and every offset in the
  range of \<^verbatim>\<open>long\<close> that is the value of a finite binary32 number.  On the grid
  \<open>g_big\<close> the point at offset \<open>2^24 + 1\<close> wins the cell at row 1, column 0, the index
  map of this cell holds the conversion of \<open>2^24 + 1\<close>, and the offset read back from
  it is \<open>2^24\<close>.\<close>

theorem index_roundtrip:
  "(\<bar>n\<bar> \<le> 2 ^ 24 \<longrightarrow> f2l (l2f n) = n) \<and>
   (is_finite w \<and> units w = m * int one_units \<and> - (2 ^ 63) \<le> m \<and> m \<le> 2 ^ 63 - 1 \<longrightarrow> f2l (l2f m) = m) \<and>
   (\<forall>a. indexMap_data (refineOutput g cam inp tid st) a = indexMap_data st a \<or>
        indexMap_data (refineOutput g cam inp tid st) a = l2f (voff g tid)) \<and>
   (j < npoints g \<and> f2l (imap (ioff g j)) \<noteq> - 1 \<and> is1 g \<noteq> 0 \<longrightarrow>
      point_at g (projectionGradient g cam pw inp gout imap j gin) (f2l (imap (ioff g j))) =
        jvp_spec cam pw (point_at g inp (f2l (imap (ioff g j)))) (point_at g gout (voff g j))) \<and>
   3 < npoints g_big \<and> lands_on g_big cam_unit inp_big 3 2 \<and>
   indexMap_data (OccMap_cuda_forward g_big cam_unit inp_big ids_big ids_big st_pre) (ioff g_big 2) =
     l2f (voff g_big 3) \<and>
   voff g_big 3 = 16777217 \<and>
   f2l (indexMap_data (OccMap_cuda_forward g_big cam_unit inp_big ids_big ids_big st_pre) (ioff g_big 2)) =
     16777216"
proof -
  have 1: "\<bar>n\<bar> \<le> 2 ^ 24 \<longrightarrow> f2l (l2f n) = n" by (simp add: roundtrip_small)
  have 2: "is_finite w \<and> units w = m * int one_units \<and> - (2 ^ 63) \<le> m \<and> m \<le> 2 ^ 63 - 1 \<longrightarrow> f2l (l2f m) = m"
    using roundtrip_repr [of w m] by blast
  have 3: "\<forall>a. indexMap_data (refineOutput g cam inp tid st) a = indexMap_data st a \<or>
        indexMap_data (refineOutput g cam inp tid st) a = l2f (voff g tid)"
    using refine_index_values by blast
  have 4: "j < npoints g \<and> f2l (imap (ioff g j)) \<noteq> - 1 \<and> is1 g \<noteq> 0 \<longrightarrow>
      point_at g (projectionGradient g cam pw inp gout imap j gin) (f2l (imap (ioff g j))) =
        jvp_spec cam pw (point_at g inp (f2l (imap (ioff g j)))) (point_at g gout (voff g j))"
    using grad_thread_writes [of j g imap cam pw inp gout gin] by (simp add: grad_target_def)
  have 5: "lands_on g_big cam_unit inp_big 3 2"
    by (simp add: lands_on_def getCoordinates_1_def cam_unit_def voff_def x_in_def y_in_def z_in_def
      xpix_of_def ypix_of_def l2f_0 fv_conv fv_cmp fv_arith g_big_def inp_big_def)
  have 6: "indexMap_data (OccMap_cuda_forward g_big cam_unit inp_big ids_big ids_big st_pre) (ioff g_big 2) =
     l2f (voff g_big 3)"
    "voff g_big 3 = 16777217"
    "f2l (indexMap_data (OccMap_cuda_forward g_big cam_unit inp_big ids_big ids_big st_pre) (ioff g_big 2)) =
     16777216"
    by (simp_all add: forward_big voff_big fv_conv fv_f2l)
  from 1 2 3 4 5 6 in_big(2) show ?thesis by blast
qed

theorem index_roundtrip_witness:
  "\<bar>5 :: int\<bar> \<le> 2 ^ 24 \<and> f2l (l2f 5) = 5 \<and>
   is_finite 0x4B800001 \<and> units 0x4B800001 = 16777218 * int one_units \<and>
   - (2 ^ 63) \<le> (16777218 :: int) \<and> (16777218 :: int) \<le> 2 ^ 63 - 1 \<and>
   f2l (l2f 16777218) = 16777218 \<and>
   indexMap_data (refineOutput g_two cam_unit inp_c 0
      \<lparr>output_data = (\<lambda>_. HUGE_VALF)(4 := 0x3F800000), indexMap_data = (\<lambda>_. l2f (- 1))\<rparr>) 0 = l2f (voff g_two 0) \<and>
   0 < npoints g_two \<and> f2l (imap_c (ioff g_two 0)) = 0 \<and> is1 g_two = 2 \<and>
   point_at g_two (projectionGradient g_two cam_unit pow_sq inp_c gout_one imap_c 0 (\<lambda>_. 0)) 0 =
     (0x3F800000, 0x3F800000, 0x3F800000)"
proof -
  note T = index_roundtrip [of 5 "0x4B800001" 16777218 g_two cam_unit inp_c 0
      "\<lparr>output_data = (\<lambda>_. HUGE_VALF)(4 := 0x3F800000), indexMap_data = (\<lambda>_. l2f (- 1))\<rparr>"
      0 imap_c pow_sq gout_one "\<lambda>_. 0"]
  from T have a: "f2l (l2f 5) = 5" by simp
  from T fv_repr have b: "f2l (l2f 16777218) = 16777218" by simp
  have p: "point_at g_two inp_c 0 = (0, 0, 0x3F800000)"
    "point_at g_two gout_one (voff g_two 0) = (0x3F800000, 0x3F800000, 0x3F800000)"
    by (simp_all add: point_at_def sel_two inp_c_def gout_one_def)
  from T in_two(1) have c: "point_at g_two (projectionGradient g_two cam_unit pow_sq inp_c gout_one imap_c 0 (\<lambda>_. 0)) 0 =
     (0x3F800000, 0x3F800000, 0x3F800000)"
    by (simp add: grad_c0 sel_two p jvp_c)
  from a b c fv_repr refine_c0 in_two(1) grad_c0 show ?thesis by (simp add: sel_two)
qed

end
